theory Spec2Isabelle
  imports Main
begin

section \<open>ThreadSafeQueue: the data\<close>

text \<open>
  The class \<^verbatim>\<open>solar::ThreadSafeQueue<T>\<close> owns a \<^verbatim>\<open>std::deque<T> q_\<close> and a
  \<^verbatim>\<open>bool stopped_\<close>, guarded by one mutex \<^verbatim>\<open>m_\<close> and one condition variable
  \<^verbatim>\<open>cv_\<close>. The deque is a list with its front at the head. An identifier cannot end
  with an underscore here, hence the field names \<open>q_buf\<close> and \<open>stopped_flag\<close>.

  Every member function touches the two fields only while it holds \<^verbatim>\<open>m_\<close>, so a call
  is one atomic transition of the record; the state a call sees is the state in which it
  holds the lock.
\<close>

record 'a ThreadSafeQueue =
  q_buf :: "'a list"
  stopped_flag :: bool

text \<open>The defaulted constructor: an empty deque, \<^verbatim>\<open>stopped_{false}\<close>.\<close>

definition ThreadSafeQueue_new :: "'a ThreadSafeQueue" where
  "ThreadSafeQueue_new = \<lparr>q_buf = [], stopped_flag = False\<rparr>"

subsection \<open>The deque operations the class calls\<close>

text \<open>
  \<^verbatim>\<open>front()\<close> and \<^verbatim>\<open>pop_front()\<close> on an empty \<^verbatim>\<open>std::deque\<close> are undefined
  behaviour; the model makes each an error value, so that a caller reaching one of them on
  an empty deque is visible.
\<close>

datatype error = Front_of_empty | Pop_front_of_empty

fun deque_empty :: "'a list \<Rightarrow> bool" where
  "deque_empty [] = True"
| "deque_empty (x # xs) = False"

fun deque_front :: "'a list \<Rightarrow> error + 'a" where
  "deque_front [] = Inl Front_of_empty"
| "deque_front (x # xs) = Inr x"

fun deque_pop_front :: "'a list \<Rightarrow> error + 'a list" where
  "deque_pop_front [] = Inl Pop_front_of_empty"
| "deque_pop_front (x # xs) = Inr xs"

definition deque_push_back :: "'a list \<Rightarrow> 'a \<Rightarrow> 'a list" where
  "deque_push_back d item = d @ [item]"

definition deque_clear :: "'a list \<Rightarrow> 'a list" where
  "deque_clear d = []"

definition deque_size :: "'a list \<Rightarrow> nat" where
  "deque_size d = length d"

subsection \<open>Outcomes of a call\<close>

text \<open>
  A call returns, or suspends on the condition variable (\<open>Blocks\<close>: in the state it
  sees, the wait predicate is false, and it stays suspended until another thread changes
  the state), or runs into undefined behaviour (\<open>Fault\<close>).

  A \<open>signal\<close> is what the call does to \<^verbatim>\<open>cv_\<close> after it has released the lock.
\<close>

datatype 'r outcome = Returns 'r | Blocks | Fault error

datatype signal = No_signal | Notify_one | Notify_all

section \<open>The member functions\<close>

text \<open>
  In this section \<^verbatim>\<open>T\<close> is plain data: copying and moving a value cannot fail. The
  member functions over a \<^verbatim>\<open>T\<close> whose constructors may throw come further down
  (\<open>push_T\<close>, \<open>wait_pop_T\<close>, ...); for plain data they are the ones here.

  \<^verbatim>\<open>void push(const T& item)\<close>: under the lock, \<^verbatim>\<open>if (stopped_) return;\<close> (before the
  notification), else \<^verbatim>\<open>q_.push_back(item)\<close>, then \<^verbatim>\<open>cv_.notify_one()\<close>.
\<close>

definition push :: "'a \<Rightarrow> 'a ThreadSafeQueue \<Rightarrow> 'a ThreadSafeQueue \<times> signal" where
  "push item s =
     (if stopped_flag s then (s, No_signal)
      else (s\<lparr>q_buf := deque_push_back (q_buf s) item\<rparr>, Notify_one))"

text \<open>\<^verbatim>\<open>void push(T&& item)\<close>: the same, the item moved into the deque.\<close>

definition push_move :: "'a \<Rightarrow> 'a ThreadSafeQueue \<Rightarrow> 'a ThreadSafeQueue \<times> signal" where
  "push_move item s =
     (if stopped_flag s then (s, No_signal)
      else (s\<lparr>q_buf := deque_push_back (q_buf s) item\<rparr>, Notify_one))"

text \<open>The predicate of \<^verbatim>\<open>cv_.wait(lock, [&] { return stopped_ || !q_.empty(); })\<close>.\<close>

definition cv_wait_pred :: "'a ThreadSafeQueue \<Rightarrow> bool" where
  "cv_wait_pred s = (stopped_flag s \<or> \<not> deque_empty (q_buf s))"

text \<open>
  \<^verbatim>\<open>std::optional<T> wait_pop()\<close>: the wait lets the call go on only in a state where
  the predicate holds, with the lock held; then \<^verbatim>\<open>if (q_.empty()) return std::nullopt;\<close>,
  else the front is moved out, \<^verbatim>\<open>q_.pop_front()\<close>, and the item is returned.
\<close>

definition wait_pop :: "'a ThreadSafeQueue \<Rightarrow> ('a option \<times> 'a ThreadSafeQueue) outcome" where
  "wait_pop s =
     (if \<not> cv_wait_pred s then Blocks
      else if deque_empty (q_buf s) then Returns (None, s)
      else (case deque_front (q_buf s) of
              Inl e \<Rightarrow> Fault e
            | Inr item \<Rightarrow>
                (case deque_pop_front (q_buf s) of
                   Inl e \<Rightarrow> Fault e
                 | Inr d \<Rightarrow> Returns (Some item, s\<lparr>q_buf := d\<rparr>))))"

text \<open>\<^verbatim>\<open>std::optional<T> try_pop()\<close>: the same body with no wait.\<close>

definition try_pop :: "'a ThreadSafeQueue \<Rightarrow> ('a option \<times> 'a ThreadSafeQueue) outcome" where
  "try_pop s =
     (if deque_empty (q_buf s) then Returns (None, s)
      else (case deque_front (q_buf s) of
              Inl e \<Rightarrow> Fault e
            | Inr item \<Rightarrow>
                (case deque_pop_front (q_buf s) of
                   Inl e \<Rightarrow> Fault e
                 | Inr d \<Rightarrow> Returns (Some item, s\<lparr>q_buf := d\<rparr>))))"

text \<open>\<^verbatim>\<open>void stop()\<close>: \<^verbatim>\<open>stopped_ = true\<close> under the lock, then \<^verbatim>\<open>cv_.notify_all()\<close>.\<close>

definition stop :: "'a ThreadSafeQueue \<Rightarrow> 'a ThreadSafeQueue \<times> signal" where
  "stop s = (s\<lparr>stopped_flag := True\<rparr>, Notify_all)"

text \<open>\<^verbatim>\<open>void clear()\<close>: \<^verbatim>\<open>q_.clear()\<close> under the lock; no notification.\<close>

definition clear :: "'a ThreadSafeQueue \<Rightarrow> 'a ThreadSafeQueue" where
  "clear s = s\<lparr>q_buf := deque_clear (q_buf s)\<rparr>"

text \<open>\<^verbatim>\<open>std::size_t size() const\<close> and \<^verbatim>\<open>bool stopped() const\<close>: snapshots.\<close>

definition size_q :: "'a ThreadSafeQueue \<Rightarrow> nat" where
  "size_q s = deque_size (q_buf s)"

definition stopped :: "'a ThreadSafeQueue \<Rightarrow> bool" where
  "stopped s = stopped_flag s"

section \<open>Calls and sequences of calls\<close>

text \<open>
  The public interface as one function: a call, the state it sees, and what comes of it
  (the value returned, the state left behind, the signal sent).
\<close>

datatype 'a call =
  Push 'a | Push_move 'a | Wait_pop | Try_pop | Stop | Clear | Size | Stopped

datatype 'a reply = Void | Item "'a option" | Count nat | Flag bool

fun exec :: "'a call \<Rightarrow> 'a ThreadSafeQueue \<Rightarrow> ('a reply \<times> 'a ThreadSafeQueue \<times> signal) outcome" where
  "exec (Push item) s = (case push item s of (s', g) \<Rightarrow> Returns (Void, s', g))"
| "exec (Push_move item) s = (case push_move item s of (s', g) \<Rightarrow> Returns (Void, s', g))"
| "exec Wait_pop s =
     (case wait_pop s of
        Returns (r, s') \<Rightarrow> Returns (Item r, s', No_signal)
      | Blocks \<Rightarrow> Blocks
      | Fault e \<Rightarrow> Fault e)"
| "exec Try_pop s =
     (case try_pop s of
        Returns (r, s') \<Rightarrow> Returns (Item r, s', No_signal)
      | Blocks \<Rightarrow> Blocks
      | Fault e \<Rightarrow> Fault e)"
| "exec Stop s = (case stop s of (s', g) \<Rightarrow> Returns (Void, s', g))"
| "exec Clear s = Returns (Void, clear s, No_signal)"
| "exec Size s = Returns (Count (size_q s), s, No_signal)"
| "exec Stopped s = Returns (Flag (stopped s), s, No_signal)"

text \<open>
  A sequence of calls made one after the other, each seeing the state the one before left:
  the values returned, in order, and the last state. A call that blocks or faults ends the
  sequence with that outcome.
\<close>

fun run :: "'a call list \<Rightarrow> 'a ThreadSafeQueue \<Rightarrow> ('a reply list \<times> 'a ThreadSafeQueue) outcome" where
  "run [] s = Returns ([], s)"
| "run (c # cs) s =
     (case exec c s of
        Returns (r, s', g) \<Rightarrow>
          (case run cs s' of
             Returns (rs, s'') \<Rightarrow> Returns (r # rs, s'')
           | Blocks \<Rightarrow> Blocks
           | Fault e \<Rightarrow> Fault e)
      | Blocks \<Rightarrow> Blocks
      | Fault e \<Rightarrow> Fault e)"


section \<open>Element types whose constructors may throw\<close>

text \<open>
  The definitions above take \<^verbatim>\<open>T\<close> as plain data: copying or moving a value always
  succeeds. For a class type the copy and the move constructor are code of \<^verbatim>\<open>T\<close>, and
  either may throw. The queue has no \<^verbatim>\<open>try\<close>, no \<^verbatim>\<open>catch\<close> and no \<^verbatim>\<open>noexcept\<close>, so
  such an exception leaves the member function and reaches the caller (the lock guard
  releases the mutex on the way out). The constructors of \<^verbatim>\<open>T\<close> are a parameter here.
\<close>

datatype exn = Exn string

record 'a element_ops =
  copy_construct :: "'a \<Rightarrow> exn + 'a"
  move_construct :: "'a \<Rightarrow> exn + 'a"

text \<open>
  A call is done, or suspends, or runs into undefined behaviour, or throws: the exception
  and the state the queue is left in.
\<close>

datatype ('r, 'a) outcome_T =
  Done 'r | Suspends | Undefined error | Throws exn "'a ThreadSafeQueue"

text \<open>
  \<^verbatim>\<open>push(const T&)\<close>: \<^verbatim>\<open>q_.push_back(item)\<close> copy-constructs the new element. When
  that throws, inserting one element at the end of a deque has no effect, and the call is
  left before \<^verbatim>\<open>cv_.notify_one()\<close>.
\<close>

definition push_T ::
  "'a element_ops \<Rightarrow> 'a \<Rightarrow> 'a ThreadSafeQueue \<Rightarrow> ('a ThreadSafeQueue \<times> signal, 'a) outcome_T" where
  "push_T ops item s =
     (if stopped_flag s then Done (s, No_signal)
      else (case copy_construct ops item of
              Inl e \<Rightarrow> Throws e s
            | Inr v \<Rightarrow> Done (s\<lparr>q_buf := deque_push_back (q_buf s) v\<rparr>, Notify_one)))"

text \<open>\<^verbatim>\<open>push(T&&)\<close>: \<^verbatim>\<open>q_.push_back(std::move(item))\<close> move-constructs the new element.\<close>

definition push_move_T ::
  "'a element_ops \<Rightarrow> 'a \<Rightarrow> 'a ThreadSafeQueue \<Rightarrow> ('a ThreadSafeQueue \<times> signal, 'a) outcome_T" where
  "push_move_T ops item s =
     (if stopped_flag s then Done (s, No_signal)
      else (case move_construct ops item of
              Inl e \<Rightarrow> Throws e s
            | Inr v \<Rightarrow> Done (s\<lparr>q_buf := deque_push_back (q_buf s) v\<rparr>, Notify_one)))"

text \<open>
  \<^verbatim>\<open>wait_pop()\<close>: \<^verbatim>\<open>T item = std::move(q_.front())\<close> move-constructs \<^verbatim>\<open>item\<close>; when
  that throws, nothing has been removed. After \<^verbatim>\<open>q_.pop_front()\<close>, \<^verbatim>\<open>return item\<close>
  move-constructs the value inside the returned \<^verbatim>\<open>std::optional<T>\<close>; when that throws,
  the element is already gone from the deque.
\<close>

definition wait_pop_T ::
  "'a element_ops \<Rightarrow> 'a ThreadSafeQueue \<Rightarrow> ('a option \<times> 'a ThreadSafeQueue, 'a) outcome_T" where
  "wait_pop_T ops s =
     (if \<not> cv_wait_pred s then Suspends
      else if deque_empty (q_buf s) then Done (None, s)
      else (case deque_front (q_buf s) of
              Inl u \<Rightarrow> Undefined u
            | Inr front \<Rightarrow>
                (case move_construct ops front of
                   Inl e \<Rightarrow> Throws e s
                 | Inr item \<Rightarrow>
                     (case deque_pop_front (q_buf s) of
                        Inl u \<Rightarrow> Undefined u
                      | Inr d \<Rightarrow>
                          (case move_construct ops item of
                             Inl e \<Rightarrow> Throws e (s\<lparr>q_buf := d\<rparr>)
                           | Inr v \<Rightarrow> Done (Some v, s\<lparr>q_buf := d\<rparr>))))))"

text \<open>\<^verbatim>\<open>try_pop()\<close>: the same body with no wait.\<close>

definition try_pop_T ::
  "'a element_ops \<Rightarrow> 'a ThreadSafeQueue \<Rightarrow> ('a option \<times> 'a ThreadSafeQueue, 'a) outcome_T" where
  "try_pop_T ops s =
     (if deque_empty (q_buf s) then Done (None, s)
      else (case deque_front (q_buf s) of
              Inl u \<Rightarrow> Undefined u
            | Inr front \<Rightarrow>
                (case move_construct ops front of
                   Inl e \<Rightarrow> Throws e s
                 | Inr item \<Rightarrow>
                     (case deque_pop_front (q_buf s) of
                        Inl u \<Rightarrow> Undefined u
                      | Inr d \<Rightarrow>
                          (case move_construct ops item of
                             Inl e \<Rightarrow> Throws e (s\<lparr>q_buf := d\<rparr>)
                           | Inr v \<Rightarrow> Done (Some v, s\<lparr>q_buf := d\<rparr>))))))"

text \<open>
  The public interface over such a \<^verbatim>\<open>T\<close>. \<open>stop\<close>, \<open>clear\<close>, \<open>size\<close> and
  \<open>stopped\<close> construct no \<^verbatim>\<open>T\<close> (\<^verbatim>\<open>q_.clear()\<close> only destroys elements), so they are
  the functions above.
\<close>

fun exec_T ::
  "'a element_ops \<Rightarrow> 'a call \<Rightarrow> 'a ThreadSafeQueue
     \<Rightarrow> ('a reply \<times> 'a ThreadSafeQueue \<times> signal, 'a) outcome_T" where
  "exec_T ops (Push item) s =
     (case push_T ops item s of
        Done (s', g) \<Rightarrow> Done (Void, s', g)
      | Suspends \<Rightarrow> Suspends
      | Undefined u \<Rightarrow> Undefined u
      | Throws e t \<Rightarrow> Throws e t)"
| "exec_T ops (Push_move item) s =
     (case push_move_T ops item s of
        Done (s', g) \<Rightarrow> Done (Void, s', g)
      | Suspends \<Rightarrow> Suspends
      | Undefined u \<Rightarrow> Undefined u
      | Throws e t \<Rightarrow> Throws e t)"
| "exec_T ops Wait_pop s =
     (case wait_pop_T ops s of
        Done (r, s') \<Rightarrow> Done (Item r, s', No_signal)
      | Suspends \<Rightarrow> Suspends
      | Undefined u \<Rightarrow> Undefined u
      | Throws e t \<Rightarrow> Throws e t)"
| "exec_T ops Try_pop s =
     (case try_pop_T ops s of
        Done (r, s') \<Rightarrow> Done (Item r, s', No_signal)
      | Suspends \<Rightarrow> Suspends
      | Undefined u \<Rightarrow> Undefined u
      | Throws e t \<Rightarrow> Throws e t)"
| "exec_T ops Stop s = (case stop s of (s', g) \<Rightarrow> Done (Void, s', g))"
| "exec_T ops Clear s = Done (Void, clear s, No_signal)"
| "exec_T ops Size s = Done (Count (size_q s), s, No_signal)"
| "exec_T ops Stopped s = Done (Flag (stopped s), s, No_signal)"

text \<open>The constructors of \<^verbatim>\<open>T\<close> never throw: each gives a value for every argument.\<close>

definition nothrow :: "'a element_ops \<Rightarrow> bool" where
  "nothrow ops =
     (\<forall>x. (\<exists>v. copy_construct ops x = Inr v) \<and> (\<exists>v. move_construct ops x = Inr v))"

text \<open>
  Three element types: plain data, whose constructors hand the value on; one whose copy
  constructor throws; one that copies but whose move constructor throws.
\<close>

definition plain_ops :: "'a element_ops" where
  "plain_ops = \<lparr>copy_construct = Inr, move_construct = Inr\<rparr>"

definition throwing_construct :: "nat \<Rightarrow> exn + nat" where
  "throwing_construct x = Inl (Exn ''constructor of T failed'')"

definition copy_throws_ops :: "nat element_ops" where
  "copy_throws_ops = \<lparr>copy_construct = throwing_construct, move_construct = Inr\<rparr>"

definition move_throws_ops :: "nat element_ops" where
  "move_throws_ops = \<lparr>copy_construct = Inr, move_construct = throwing_construct\<rparr>"

text \<open>An outcome of the plain-data functions, read as an outcome over any \<^verbatim>\<open>T\<close>.\<close>

fun embed :: "'r outcome \<Rightarrow> ('r, 'a) outcome_T" where
  "embed (Returns r) = Done r"
| "embed Blocks = Suspends"
| "embed (Fault u) = Undefined u"

section \<open>Basic facts\<close>

lemma deque_empty_iff: "deque_empty d = (d = [])"
  by (cases d) simp_all

lemma wait_pop_Cons:
  "q_buf s = x # xs \<Longrightarrow> wait_pop s = Returns (Some x, s\<lparr>q_buf := xs\<rparr>)"
  by (simp add: wait_pop_def cv_wait_pred_def)

lemma wait_pop_Nil:
  "q_buf s = [] \<Longrightarrow> wait_pop s = (if stopped_flag s then Returns (None, s) else Blocks)"
  by (simp add: wait_pop_def cv_wait_pred_def)

lemma try_pop_Cons:
  "q_buf s = x # xs \<Longrightarrow> try_pop s = Returns (Some x, s\<lparr>q_buf := xs\<rparr>)"
  by (simp add: try_pop_def)

lemma try_pop_Nil: "q_buf s = [] \<Longrightarrow> try_pop s = Returns (None, s)"
  by (simp add: try_pop_def)

section \<open>try_pop\<close>




section \<open>Sequences of calls\<close>






section \<open>FIFO order\<close>



section \<open>Draining after stop\<close>




section \<open>wait_pop\<close>



section \<open>push after stop\<close>

text \<open>
  Claim C4. In every state whose stopped flag is set, \<open>push\<close> of any item, by copy or
  by move, returns normally and leaves the whole state as it was: the same buffer (so the
  same \<open>size\<close>), the flag still set. It does not notify the condition variable either.
\<close>

theorem push_after_stop_noop:
  "stopped_flag s \<Longrightarrow>
     push item s = (s, No_signal) \<and>
     push_move item s = (s, No_signal) \<and>
     exec (Push item) s = Returns (Void, s, No_signal) \<and>
     exec (Push_move item) s = Returns (Void, s, No_signal) \<and>
     size_q (fst (push item s)) = size_q s \<and>
     size_q (fst (push_move item s)) = size_q s \<and>
     stopped (fst (push item s)) \<and>
     stopped (fst (push_move item s))"
  by (simp add: push_def push_move_def stopped_def)

theorem push_after_stop_noop_witness:
  "stopped_flag \<lparr>q_buf = [1, 2 :: nat], stopped_flag = True\<rparr> \<and>
   push 3 \<lparr>q_buf = [1, 2 :: nat], stopped_flag = True\<rparr>
     = (\<lparr>q_buf = [1, 2], stopped_flag = True\<rparr>, No_signal) \<and>
   push_move 3 \<lparr>q_buf = [1, 2 :: nat], stopped_flag = True\<rparr>
     = (\<lparr>q_buf = [1, 2], stopped_flag = True\<rparr>, No_signal)"
  using push_after_stop_noop [of "\<lparr>q_buf = [1, 2 :: nat], stopped_flag = True\<rparr>" 3]
  by simp

section \<open>stop\<close>

lemma stop_fixes_stopped: "stopped_flag s \<Longrightarrow> fst (stop s) = s"
  by (cases s) (simp add: stop_def)

lemma run_stops_stopped:
  "stopped_flag s \<Longrightarrow> run (replicate n Stop) s = Returns (replicate n Void, s)"
proof (induction n)
  case 0
  then show ?case by simp
next
  case (Suc n)
  from Suc.prems have "fst (stop s) = s" by (rule stop_fixes_stopped)
  then have same: "s\<lparr>stopped_flag := True\<rparr> = s"
    by (simp add: stop_def)
  from Suc show ?case by (simp add: stop_def same)
qed

text \<open>
  Claim C6. In every state, \<open>stop\<close> applied twice, or any number of times from one on,
  leaves exactly the state that one \<open>stop\<close> leaves: flag and buffer.
\<close>

theorem stop_idempotent:
  "fst (stop (fst (stop s))) = fst (stop s) \<and>
   run (replicate (Suc n) Stop) s = Returns (replicate (Suc n) Void, fst (stop s))"
proof -
  have flag: "stopped_flag (fst (stop s))"
    by (simp add: stop_def)
  then have twice: "fst (stop (fst (stop s))) = fst (stop s)"
    by (rule stop_fixes_stopped)
  from flag have "run (replicate n Stop) (fst (stop s)) = Returns (replicate n Void, fst (stop s))"
    by (rule run_stops_stopped)
  then have "run (replicate (Suc n) Stop) s = Returns (replicate (Suc n) Void, fst (stop s))"
    by (simp add: stop_def)
  with twice show ?thesis by simp
qed

theorem stop_idempotent_witness:
  "fst (stop (fst (stop \<lparr>q_buf = [1, 2 :: nat], stopped_flag = False\<rparr>)))
     = fst (stop \<lparr>q_buf = [1, 2 :: nat], stopped_flag = False\<rparr>) \<and>
   run [Stop, Stop, Stop] \<lparr>q_buf = [1, 2 :: nat], stopped_flag = False\<rparr>
     = Returns ([Void, Void, Void], \<lparr>q_buf = [1, 2], stopped_flag = True\<rparr>) \<and>
   run [Stop] \<lparr>q_buf = [1, 2 :: nat], stopped_flag = False\<rparr>
     = Returns ([Void], \<lparr>q_buf = [1, 2], stopped_flag = True\<rparr>)"
  using stop_idempotent [of "\<lparr>q_buf = [1, 2 :: nat], stopped_flag = False\<rparr>" 2]
    stop_idempotent [of "\<lparr>q_buf = [1, 2 :: nat], stopped_flag = False\<rparr>" 0]
  by (simp add: stop_def numeral_2_eq_2)

section \<open>clear\<close>




section \<open>The stopped flag never goes back\<close>

lemma exec_keeps_stopped:
  "stopped_flag s \<Longrightarrow> \<exists>r s' g. exec c s = Returns (r, s', g) \<and> stopped_flag s'"
proof (cases c)
  case Wait_pop
  assume "stopped_flag s"
  with Wait_pop show ?thesis
    by (cases "q_buf s") (simp_all add: wait_pop_Nil wait_pop_Cons)
next
  case Try_pop
  assume "stopped_flag s"
  with Try_pop show ?thesis
    by (cases "q_buf s") (simp_all add: try_pop_Nil try_pop_Cons)
qed (simp_all add: push_def push_move_def stop_def clear_def)

lemma run_keeps_stopped:
  "stopped_flag s \<Longrightarrow> \<exists>rs s'. run cs s = Returns (rs, s') \<and> stopped_flag s'"
proof (induction cs arbitrary: s)
  case Nil
  then show ?case by simp
next
  case (Cons c cs)
  from Cons.prems obtain r t g where step: "exec c s = Returns (r, t, g)" and "stopped_flag t"
    using exec_keeps_stopped by blast
  from \<open>stopped_flag t\<close> obtain rs u where "run cs t = Returns (rs, u)" and "stopped_flag u"
    using Cons.IH by blast
  with step show ?case by simp
qed

text \<open>
  Claim C8. In every state whose stopped flag is set, each operation (\<open>push\<close>,
  \<open>wait_pop\<close>, \<open>try_pop\<close>, \<open>stop\<close>, \<open>clear\<close>, \<open>size\<close>, \<open>stopped\<close>)
  returns and leaves the flag set; so does every sequence of operations, of any length.
  No operation takes the flag from true back to false.
\<close>

theorem stopped_monotonic:
  assumes "stopped_flag s"
  shows "(\<exists>r s' g. exec c s = Returns (r, s', g) \<and> stopped_flag s') \<and>
     (\<exists>rs s'. run cs s = Returns (rs, s') \<and> stopped_flag s')"
proof
  from assms show "\<exists>r s' g. exec c s = Returns (r, s', g) \<and> stopped_flag s'"
    by (rule exec_keeps_stopped)
  from assms show "\<exists>rs s'. run cs s = Returns (rs, s') \<and> stopped_flag s'"
    by (rule run_keeps_stopped)
qed

theorem stopped_monotonic_witness:
  "stopped_flag \<lparr>q_buf = [5 :: nat], stopped_flag = True\<rparr> \<and>
   (\<exists>r s' g. exec Clear \<lparr>q_buf = [5 :: nat], stopped_flag = True\<rparr> = Returns (r, s', g)
      \<and> stopped_flag s') \<and>
   (\<exists>rs s'. run [Push 6, Wait_pop, Clear, Try_pop, Size, Stop, Wait_pop, Stopped]
        \<lparr>q_buf = [5 :: nat], stopped_flag = True\<rparr> = Returns (rs, s')
      \<and> stopped_flag s')"
  using stopped_monotonic [of "\<lparr>q_buf = [5 :: nat], stopped_flag = True\<rparr>" Clear
      "[Push 6, Wait_pop, Clear, Try_pop, Size, Stop, Wait_pop, Stopped]"]
  by simp

section \<open>Which operations can fail, and how\<close>

lemma exec_T_plain: "exec_T plain_ops c s = embed (exec c s)"
proof (cases c)
  case Wait_pop
  then show ?thesis
    by (cases "q_buf s")
       (simp_all add: wait_pop_T_def wait_pop_def plain_ops_def cv_wait_pred_def)
next
  case Try_pop
  then show ?thesis
    by (cases "q_buf s") (simp_all add: try_pop_T_def try_pop_def plain_ops_def)
qed (simp_all add: push_T_def push_def push_move_T_def push_move_def plain_ops_def stop_def)

lemma push_T_cases:
  "push_T ops item s =
     (if stopped_flag s then Done (s, No_signal)
      else (case copy_construct ops item of
              Inl e \<Rightarrow> Throws e s
            | Inr v \<Rightarrow> Done (s\<lparr>q_buf := q_buf s @ [v]\<rparr>, Notify_one)))"
  by (simp add: push_T_def deque_push_back_def split: sum.splits)

lemma push_move_T_cases:
  "push_move_T ops item s =
     (if stopped_flag s then Done (s, No_signal)
      else (case move_construct ops item of
              Inl e \<Rightarrow> Throws e s
            | Inr v \<Rightarrow> Done (s\<lparr>q_buf := q_buf s @ [v]\<rparr>, Notify_one)))"
  by (simp add: push_move_T_def deque_push_back_def split: sum.splits)

lemma wait_pop_T_Nil:
  "q_buf s = [] \<Longrightarrow> wait_pop_T ops s = (if stopped_flag s then Done (None, s) else Suspends)"
  by (simp add: wait_pop_T_def cv_wait_pred_def)

lemma wait_pop_T_Cons:
  "q_buf s = x # xs \<Longrightarrow>
   wait_pop_T ops s =
     (case move_construct ops x of
        Inl e \<Rightarrow> Throws e s
      | Inr item \<Rightarrow>
          (case move_construct ops item of
             Inl e \<Rightarrow> Throws e (s\<lparr>q_buf := xs\<rparr>)
           | Inr v \<Rightarrow> Done (Some v, s\<lparr>q_buf := xs\<rparr>)))"
  by (simp add: wait_pop_T_def cv_wait_pred_def split: sum.splits)

lemma try_pop_T_Nil: "q_buf s = [] \<Longrightarrow> try_pop_T ops s = Done (None, s)"
  by (simp add: try_pop_T_def)

lemma try_pop_T_Cons:
  "q_buf s = x # xs \<Longrightarrow>
   try_pop_T ops s =
     (case move_construct ops x of
        Inl e \<Rightarrow> Throws e s
      | Inr item \<Rightarrow>
          (case move_construct ops item of
             Inl e \<Rightarrow> Throws e (s\<lparr>q_buf := xs\<rparr>)
           | Inr v \<Rightarrow> Done (Some v, s\<lparr>q_buf := xs\<rparr>)))"
  by (simp add: try_pop_T_def split: sum.splits)

lemma nothrow_copy: "nothrow ops \<Longrightarrow> \<exists>v. copy_construct ops x = Inr v"
  by (simp add: nothrow_def)

lemma nothrow_move: "nothrow ops \<Longrightarrow> \<exists>v. move_construct ops x = Inr v"
  by (simp add: nothrow_def)

lemma exec_T_not_undefined: "exec_T ops c s \<noteq> Undefined u"
proof (cases c)
  case (Push item)
  then show ?thesis by (simp add: push_T_cases split: sum.splits)
next
  case (Push_move item)
  then show ?thesis by (simp add: push_move_T_cases split: sum.splits)
next
  case Wait_pop
  then show ?thesis
    by (cases "q_buf s") (simp_all add: wait_pop_T_Nil wait_pop_T_Cons split: sum.splits)
next
  case Try_pop
  then show ?thesis
    by (cases "q_buf s") (simp_all add: try_pop_T_Nil try_pop_T_Cons split: sum.splits)
qed (simp_all add: stop_def)

lemma exec_T_suspends_iff:
  "(exec_T ops c s = Suspends) = (c = Wait_pop \<and> \<not> stopped_flag s \<and> q_buf s = [])"
proof (cases c)
  case (Push item)
  then show ?thesis by (simp add: push_T_cases split: sum.splits)
next
  case (Push_move item)
  then show ?thesis by (simp add: push_move_T_cases split: sum.splits)
next
  case Wait_pop
  then show ?thesis
    by (cases "q_buf s") (simp_all add: wait_pop_T_Nil wait_pop_T_Cons split: sum.splits)
next
  case Try_pop
  then show ?thesis
    by (cases "q_buf s") (simp_all add: try_pop_T_Nil try_pop_T_Cons split: sum.splits)
qed (simp_all add: stop_def)

lemma exec_T_throws_where:
  assumes "exec_T ops c s = Throws e t"
  shows "(\<exists>item. c = Push item \<and> copy_construct ops item = Inl e \<and> \<not> stopped_flag s \<and> t = s) \<or>
         (\<exists>item. c = Push_move item \<and> move_construct ops item = Inl e \<and> \<not> stopped_flag s \<and> t = s) \<or>
         ((c = Wait_pop \<or> c = Try_pop) \<and> q_buf s \<noteq> [] \<and> (\<exists>x. move_construct ops x = Inl e) \<and>
          (t = s \<or> t = s\<lparr>q_buf := tl (q_buf s)\<rparr>))"
proof (cases c)
  case (Push item)
  with assms show ?thesis by (auto simp: push_T_cases split: if_splits sum.splits)
next
  case (Push_move item)
  with assms show ?thesis by (auto simp: push_move_T_cases split: if_splits sum.splits)
next
  case Wait_pop
  with assms show ?thesis
    by (cases "q_buf s") (auto simp: wait_pop_T_Nil wait_pop_T_Cons split: if_splits sum.splits)
next
  case Try_pop
  with assms show ?thesis
    by (cases "q_buf s") (auto simp: try_pop_T_Nil try_pop_T_Cons split: if_splits sum.splits)
next
  case Stop
  with assms show ?thesis by (simp add: stop_def)
next
  case Clear
  with assms show ?thesis by simp
next
  case Size
  with assms show ?thesis by simp
next
  case Stopped
  with assms show ?thesis by simp
qed

lemma exec_T_nothrow: "nothrow ops \<Longrightarrow> exec_T ops c s \<noteq> Throws e t"
proof
  assume safe: "nothrow ops" and "exec_T ops c s = Throws e t"
  then have "(\<exists>x. copy_construct ops x = Inl e) \<or> (\<exists>x. move_construct ops x = Inl e)"
    by (auto dest: exec_T_throws_where)
  with safe show False
    using nothrow_copy nothrow_move by (metis Inl_Inr_False)
qed

text \<open>
  Claim C9, as it is written, fails: with an element type whose copy constructor throws,
  \<open>push\<close> on the new queue raises that exception to its caller (the queue is left as it
  was); with one that copies but whose move constructor throws, \<open>push\<close> by copy stores
  the item and the following \<open>try_pop\<close> and \<open>wait_pop\<close> raise, the item still
  in the buffer.
\<close>

theorem operation_raises_counterexample:
  "exec_T copy_throws_ops (Push 7) ThreadSafeQueue_new
     = Throws (Exn ''constructor of T failed'') ThreadSafeQueue_new \<and>
   exec_T move_throws_ops (Push 7) ThreadSafeQueue_new
     = Done (Void, \<lparr>q_buf = [7], stopped_flag = False\<rparr>, Notify_one) \<and>
   exec_T move_throws_ops Try_pop \<lparr>q_buf = [7], stopped_flag = False\<rparr>
     = Throws (Exn ''constructor of T failed'') \<lparr>q_buf = [7], stopped_flag = False\<rparr> \<and>
   exec_T move_throws_ops Wait_pop \<lparr>q_buf = [7], stopped_flag = False\<rparr>
     = Throws (Exn ''constructor of T failed'') \<lparr>q_buf = [7], stopped_flag = False\<rparr>"
  by (simp add: push_T_cases try_pop_T_Cons wait_pop_T_Cons copy_throws_ops_def
      move_throws_ops_def throwing_construct_def ThreadSafeQueue_new_def)

text \<open>
  Claim C9, amended. For every element type, every call (whatever its argument) and every
  state, the operation is defined and raises no error of its own: it never reaches
  \<open>front\<close> or \<open>pop_front\<close> of an empty deque, and it suspends only as \<open>wait_pop\<close>
  on an empty queue that is not stopped. The only error a caller can see is an exception
  thrown by the copy or move constructor of \<^verbatim>\<open>T\<close>, and only in a \<open>push\<close> on a queue
  that is not stopped (the queue is left as it was) or in a pop of a non-empty buffer; so
  \<open>stop\<close>, \<open>clear\<close>, \<open>size\<close>, \<open>stopped\<close>, a \<open>push\<close> on a stopped queue and a
  pop of an empty buffer never raise. When the constructors of \<^verbatim>\<open>T\<close> do not throw, no
  operation raises anything: every call returns a value (but for the \<open>wait_pop\<close> that
  suspends), and the only result that looks like a failure is the empty optional of the
  two pops.
\<close>

theorem operations_fail_only_in_T:
  "(\<forall>u. exec_T ops c s \<noteq> Undefined u) \<and>
   ((exec_T ops c s = Suspends) = (c = Wait_pop \<and> \<not> stopped_flag s \<and> q_buf s = [])) \<and>
   (\<forall>e t. exec_T ops c s = Throws e t \<longrightarrow>
      (\<exists>item. c = Push item \<and> copy_construct ops item = Inl e \<and> \<not> stopped_flag s \<and> t = s) \<or>
      (\<exists>item. c = Push_move item \<and> move_construct ops item = Inl e \<and> \<not> stopped_flag s \<and> t = s) \<or>
      ((c = Wait_pop \<or> c = Try_pop) \<and> q_buf s \<noteq> [] \<and> (\<exists>x. move_construct ops x = Inl e) \<and>
       (t = s \<or> t = s\<lparr>q_buf := tl (q_buf s)\<rparr>))) \<and>
   (nothrow ops \<longrightarrow>
      (\<forall>e t. exec_T ops c s \<noteq> Throws e t) \<and>
      (if c = Wait_pop \<and> \<not> stopped_flag s \<and> q_buf s = []
       then exec_T ops c s = Suspends
       else (\<exists>r s' g. exec_T ops c s = Done (r, s', g))))"
proof (intro conjI allI impI)
  fix u show "exec_T ops c s \<noteq> Undefined u"
    by (rule exec_T_not_undefined)
next
  show "(exec_T ops c s = Suspends) = (c = Wait_pop \<and> \<not> stopped_flag s \<and> q_buf s = [])"
    by (rule exec_T_suspends_iff)
next
  fix e t assume "exec_T ops c s = Throws e t"
  then show "(\<exists>item. c = Push item \<and> copy_construct ops item = Inl e \<and> \<not> stopped_flag s \<and> t = s) \<or>
      (\<exists>item. c = Push_move item \<and> move_construct ops item = Inl e \<and> \<not> stopped_flag s \<and> t = s) \<or>
      ((c = Wait_pop \<or> c = Try_pop) \<and> q_buf s \<noteq> [] \<and> (\<exists>x. move_construct ops x = Inl e) \<and>
       (t = s \<or> t = s\<lparr>q_buf := tl (q_buf s)\<rparr>))"
    by (rule exec_T_throws_where)
next
  fix e t assume "nothrow ops"
  then show "exec_T ops c s \<noteq> Throws e t"
    by (rule exec_T_nothrow)
next
  assume safe: "nothrow ops"
  show "if c = Wait_pop \<and> \<not> stopped_flag s \<and> q_buf s = []
       then exec_T ops c s = Suspends
       else (\<exists>r s' g. exec_T ops c s = Done (r, s', g))"
  proof (cases "c = Wait_pop \<and> \<not> stopped_flag s \<and> q_buf s = []")
    case True
    then have "exec_T ops c s = Suspends"
      using exec_T_suspends_iff by blast
    then show ?thesis
      unfolding if_P [OF True] .
  next
    case False
    then have "exec_T ops c s \<noteq> Suspends"
      by (simp add: exec_T_suspends_iff)
    moreover have "\<And>u. exec_T ops c s \<noteq> Undefined u"
      by (rule exec_T_not_undefined)
    moreover have "\<And>e t. exec_T ops c s \<noteq> Throws e t"
      using safe by (rule exec_T_nothrow)
    ultimately obtain r where "exec_T ops c s = Done r"
      by (cases "exec_T ops c s") auto
    then have "\<exists>r s' g. exec_T ops c s = Done (r, s', g)"
      by (cases r) auto
    then show ?thesis
      unfolding if_not_P [OF False] .
  qed
qed

theorem operations_fail_only_in_T_witness:
  "exec_T copy_throws_ops (Push 7) \<lparr>q_buf = [1, 2], stopped_flag = False\<rparr>
     = Throws (Exn ''constructor of T failed'') \<lparr>q_buf = [1, 2], stopped_flag = False\<rparr> \<and>
   copy_construct copy_throws_ops 7 = Inl (Exn ''constructor of T failed'') \<and>
   nothrow (plain_ops :: nat element_ops) \<and>
   (\<exists>r s' g. exec_T plain_ops (Push 7) \<lparr>q_buf = [1, 2 :: nat], stopped_flag = False\<rparr>
      = Done (r, s', g)) \<and>
   (\<exists>r s' g. exec_T plain_ops Try_pop \<lparr>q_buf = [1, 2 :: nat], stopped_flag = False\<rparr>
      = Done (r, s', g)) \<and>
   exec_T plain_ops Wait_pop \<lparr>q_buf = [] :: nat list, stopped_flag = False\<rparr> = Suspends"
proof -
  have safe: "nothrow (plain_ops :: nat element_ops)"
    by (simp add: nothrow_def plain_ops_def)
  have thrown: "exec_T copy_throws_ops (Push 7) \<lparr>q_buf = [1, 2], stopped_flag = False\<rparr>
      = Throws (Exn ''constructor of T failed'') \<lparr>q_buf = [1, 2], stopped_flag = False\<rparr>"
    by (simp add: push_T_cases copy_throws_ops_def throwing_construct_def)
  show ?thesis
    using safe thrown
      operations_fail_only_in_T [of copy_throws_ops "Push 7"
        "\<lparr>q_buf = [1, 2], stopped_flag = False\<rparr>"]
      operations_fail_only_in_T [of plain_ops "Push 7"
        "\<lparr>q_buf = [1, 2 :: nat], stopped_flag = False\<rparr>"]
      operations_fail_only_in_T [of plain_ops Try_pop
        "\<lparr>q_buf = [1, 2 :: nat], stopped_flag = False\<rparr>"]
      operations_fail_only_in_T [of plain_ops Wait_pop
        "\<lparr>q_buf = [] :: nat list, stopped_flag = False\<rparr>"]
    by simp
qed

section \<open>What a pop leaves behind\<close>

text \<open>
  Claim C10. A pop that returns an item removes the front element and nothing else: on a
  buffer \<open>x # xs\<close>, \<open>wait_pop\<close> and \<open>try_pop\<close> return \<open>x\<close> and leave the state
  with buffer \<open>xs\<close>, the tail in its order, everything else as it was. Neither pop changes
  the stopped flag, whatever it returns.
\<close>

theorem pop_removes_front_only:
  "(\<forall>x xs. q_buf s = x # xs \<longrightarrow>
      wait_pop s = Returns (Some x, s\<lparr>q_buf := xs\<rparr>) \<and>
      try_pop s = Returns (Some x, s\<lparr>q_buf := xs\<rparr>)) \<and>
   (\<forall>r s'. wait_pop s = Returns (r, s') \<longrightarrow>
      stopped_flag s' = stopped_flag s \<and> (r = None \<longrightarrow> s' = s)) \<and>
   (\<forall>r s'. try_pop s = Returns (r, s') \<longrightarrow>
      stopped_flag s' = stopped_flag s \<and> (r = None \<longrightarrow> s' = s))"
proof (cases "q_buf s")
  case Nil
  then show ?thesis by (auto simp: wait_pop_Nil try_pop_Nil split: if_splits)
next
  case (Cons y ys)
  then show ?thesis by (auto simp: wait_pop_Cons try_pop_Cons)
qed

theorem pop_removes_front_only_witness:
  "q_buf \<lparr>q_buf = [7, 8, 9 :: nat], stopped_flag = False\<rparr> = 7 # [8, 9] \<and>
   wait_pop \<lparr>q_buf = [7, 8, 9 :: nat], stopped_flag = False\<rparr>
     = Returns (Some 7, \<lparr>q_buf = [8, 9], stopped_flag = False\<rparr>) \<and>
   try_pop \<lparr>q_buf = [7, 8, 9 :: nat], stopped_flag = False\<rparr>
     = Returns (Some 7, \<lparr>q_buf = [8, 9], stopped_flag = False\<rparr>) \<and>
   wait_pop \<lparr>q_buf = [] :: nat list, stopped_flag = True\<rparr>
     = Returns (None, \<lparr>q_buf = [], stopped_flag = True\<rparr>) \<and>
   try_pop \<lparr>q_buf = [] :: nat list, stopped_flag = True\<rparr>
     = Returns (None, \<lparr>q_buf = [], stopped_flag = True\<rparr>)"
  using pop_removes_front_only [of "\<lparr>q_buf = [7, 8, 9 :: nat], stopped_flag = False\<rparr>"]
    pop_removes_front_only [of "\<lparr>q_buf = [] :: nat list, stopped_flag = True\<rparr>"]
  by (simp add: wait_pop_Nil try_pop_Nil)

end
